theory Spec2Isabelle
  imports Complex_Main "HOL-Library.Multiset"
begin

section \<open>Python preliminaries\<close>

text \<open>
  Exceptions are values. A function that may raise returns \<open>error + 'a\<close>, with \<open>Inl\<close> the
  exception. Python floats are idealised as reals. Where the code rounds, a value of the
  model can differ from the code's: \<open>int(0.29 * 100)\<close> is 28 in double precision and 29
  here. The theorems below relate each verdict to the values the same steps compute; none
  of them compares two results of rounded arithmetic.
\<close>

datatype error =
  IndexError | ValueError | AttributeError | KeyError | ZeroDivisionError | TypeError
  | OSError | LibraryError

type_synonym 'a result = "error + 'a"

definition ebind :: "'a result \<Rightarrow> ('a \<Rightarrow> 'b result) \<Rightarrow> 'b result" where
  "ebind m f = (case m of Inl e \<Rightarrow> Inl e | Inr x \<Rightarrow> f x)"

text \<open>A list comprehension whose body may raise: left to right, the first exception wins.\<close>

fun emap :: "('a \<Rightarrow> 'b result) \<Rightarrow> 'a list \<Rightarrow> 'b list result" where
  "emap f [] = Inr []"
| "emap f (x # xs) = ebind (f x) (\<lambda>y. ebind (emap f xs) (\<lambda>ys. Inr (y # ys)))"

text \<open>\<open>range(start, stop, 2)\<close>.\<close>

definition range_step2 :: "nat \<Rightarrow> nat \<Rightarrow> nat list" where
  "range_step2 start stop = filter (\<lambda>i. even (i - start)) [start..<stop]"

text \<open>The slice \<open>xs[::2]\<close>; \<open>xs[1::2]\<close> is \<open>slice2 (drop 1 xs)\<close>.\<close>

fun slice2 :: "'a list \<Rightarrow> 'a list" where
  "slice2 [] = []"
| "slice2 [x] = [x]"
| "slice2 (x # y # zs) = x # slice2 zs"

text \<open>
  \<open>min\<close> and \<open>max\<close> of a list: \<open>ValueError\<close> on the empty list, otherwise the first
  smallest (largest) element, found with \<open><\<close> (\<open>>\<close>) as CPython does.
\<close>

definition py_min :: "'a::linorder list \<Rightarrow> 'a result" where
  "py_min xs = (case xs of [] \<Rightarrow> Inl ValueError
                | x # rest \<Rightarrow> Inr (fold (\<lambda>v m. if v < m then v else m) rest x))"

definition py_max :: "'a::linorder list \<Rightarrow> 'a result" where
  "py_max xs = (case xs of [] \<Rightarrow> Inl ValueError
                | x # rest \<Rightarrow> Inr (fold (\<lambda>v m. if v > m then v else m) rest x))"

text \<open>\<open>int(x)\<close> of a float truncates towards zero.\<close>

definition py_int :: "real \<Rightarrow> int" where
  "py_int x = (if 0 \<le> x then \<lfloor>x\<rfloor> else \<lceil>x\<rceil>)"

text \<open>\<open>round(x, n)\<close>: to \<open>n\<close> decimal places, a tie going to the even neighbour.\<close>

definition py_round :: "real \<Rightarrow> nat \<Rightarrow> real" where
  "py_round x n =
     (let y = x * 10 ^ n; f = \<lfloor>y\<rfloor>; d = y - of_int f;
          r = (if d < 1 / 2 then f else if 1 / 2 < d then f + 1
               else if even f then f else f + 1)
      in of_int r / 10 ^ n)"

text \<open>\<open>str(n)\<close> of a non-negative integer, as an f-string formats a replica index.\<close>

fun str_nat :: "nat \<Rightarrow> string" where
  "str_nat n = (if n < 10 then [''0123456789'' ! n]
                else str_nat (n div 10) @ [''0123456789'' ! (n mod 10)])"

declare str_nat.simps [simp del]

section \<open>Geometry utilities (polygons.py)\<close>

type_synonym polygon = "real list"
type_synonym bbox = "real \<times> real \<times> real \<times> real"

definition ROUNDING :: nat where
  "ROUNDING = 6"

definition polygon_from_bbox :: "bbox \<Rightarrow> polygon" where
  "polygon_from_bbox b = (case b of (x1, y1, x2, y2) \<Rightarrow> [x1, y1, x2, y1, x2, y2, x1, y2])"

definition bbox_from_polygon :: "polygon \<Rightarrow> bbox result" where
  "bbox_from_polygon polygon =
     (let x = map (\<lambda>i. polygon ! i) (range_step2 0 (length polygon));
          y = map (\<lambda>i. polygon ! i) (range_step2 1 (length polygon))
      in ebind (py_min x) (\<lambda>min_x. ebind (py_min y) (\<lambda>min_y.
         ebind (py_max x) (\<lambda>max_x. ebind (py_max y) (\<lambda>max_y.
         Inr (min_x, min_y, max_x, max_y))))))"

text \<open>\<open>sum(x) / len(x)\<close> raises \<open>ZeroDivisionError\<close> on the empty polygon.\<close>

definition calculate_center_from_polygon :: "polygon \<Rightarrow> (real \<times> real) result" where
  "calculate_center_from_polygon polygon =
     (let x = map (\<lambda>i. polygon ! i) (range_step2 0 (length polygon));
          y = map (\<lambda>i. polygon ! i) (range_step2 1 (length polygon))
      in if length x = 0 then Inl ZeroDivisionError
         else if length y = 0 then Inl ZeroDivisionError
         else Inr (py_round (sum_list x / real (length x)) ROUNDING,
                   py_round (sum_list y / real (length y)) ROUNDING))"

text \<open>
  The geometry library (shapely) is outside the repository. Its operations are the fields of
  a backend record over an abstract geometry type; every theorem holds for any backend, and
  says so when it needs a property of one.
\<close>

record 'g shapely =
  shp_Polygon :: "(real \<times> real) list \<Rightarrow> 'g result"
  shp_area :: "'g \<Rightarrow> real"
  shp_intersection :: "'g \<Rightarrow> 'g \<Rightarrow> 'g result"
  shp_union :: "'g \<Rightarrow> 'g \<Rightarrow> 'g result"
  shp_is_MultiPolygon :: "'g \<Rightarrow> bool"
  shp_convex_hull :: "'g \<Rightarrow> 'g"
  shp_Polygon_of :: "'g \<Rightarrow> 'g result"
  shp_exterior_coords :: "'g \<Rightarrow> (real \<times> real) list result"

text \<open>\<open>zip(polygon[::2], polygon[1::2])\<close>: the flat sequence read as points.\<close>

definition points_of :: "'a list \<Rightarrow> ('a \<times> 'a) list" where
  "points_of polygon = zip (slice2 polygon) (slice2 (drop 1 polygon))"

text \<open>\<open>[coord for point in coords for coord in point]\<close>.\<close>

definition flatten_points :: "('a \<times> 'a) list \<Rightarrow> 'a list" where
  "flatten_points coords = concat (map (\<lambda>(x, y). [x, y]) coords)"

text \<open>The loop of \<open>merge_polygons\<close> over \<open>all_polygons[1:]\<close>.\<close>

fun union_all :: "'g shapely \<Rightarrow> 'g \<Rightarrow> 'g list \<Rightarrow> 'g result" where
  "union_all shp merged_polygon [] = Inr merged_polygon"
| "union_all shp merged_polygon (polygon # rest) =
     ebind (shp_union shp merged_polygon polygon) (\<lambda>m. union_all shp m rest)"

text \<open>Lines 59 to 67 of \<open>merge_polygons\<close>: the convex hull of a multi-part union, then the
  exterior ring flattened.\<close>

definition exterior_of_merged :: "'g shapely \<Rightarrow> 'g \<Rightarrow> polygon result" where
  "exterior_of_merged shp merged_polygon =
     ebind (if shp_is_MultiPolygon shp merged_polygon
            then shp_Polygon_of shp (shp_convex_hull shp merged_polygon)
            else Inr merged_polygon) (\<lambda>merged_polygon.
     ebind (shp_exterior_coords shp merged_polygon) (\<lambda>coords.
     Inr (flatten_points coords)))"

definition merge_polygons :: "'g shapely \<Rightarrow> polygon list \<Rightarrow> polygon result" where
  "merge_polygons shp polygons =
     ebind (emap (\<lambda>polygon. shp_Polygon shp (points_of polygon)) polygons) (\<lambda>all_polygons.
       case all_polygons of
         [] \<Rightarrow> Inl IndexError
       | first # rest \<Rightarrow> ebind (union_all shp first rest) (exterior_of_merged shp))"

text \<open>The area shapely gives the polygon of a flat coordinate sequence.\<close>

definition enclosed_area :: "'g shapely \<Rightarrow> polygon \<Rightarrow> real result" where
  "enclosed_area shp polygon =
     ebind (shp_Polygon shp (points_of polygon)) (\<lambda>g. Inr (shp_area shp g))"

section \<open>Data model (typedef.py)\<close>

record Category =
  cat_id :: int
  cat_name :: string

record Annotation =
  ann_id :: string
  ann_category_id :: int
  ann_center :: "(real \<times> real) option"
  ann_bbox :: "bbox option"
  ann_segmentation :: "polygon option"
  ann_task :: string
  ann_conf :: real
  ann_category_name :: string
  ann_tags :: "string list"

text \<open>\<open>intermediate_ids\<close> is annotated \<open>List[int]\<close> but receives image ids, which are strings.\<close>

record Image =
  img_id :: string
  img_path :: string
  img_intermediate_ids :: "string list"
  img_width :: int
  img_height :: int
  img_size_kb :: int
  img_group :: string
  img_annotations :: "Annotation list"

text \<open>The dataclass \<open>Dataset\<close> of typedef.py declares these two fields and no other.\<close>

record Dataset =
  ds_images :: "Image list"
  ds_categories :: "Category list"

section \<open>Augmentation (tools/augmentations.py)\<close>

text \<open>
  OpenCV, numpy and albumentations are outside the repository too. An image and a label
  mask are abstract; \<open>'rnd\<close> is the random draw one call of the composed transform makes.
  \<open>cv_fill_mask\<close> stands for lines 140 to 146 (\<open>np.zeros\<close> and the \<open>fillPoly\<close> loop),
  \<open>alb_transform\<close> for lines 122 to 138 and 149 to 151 (building and applying the transform),
  \<open>cv_findContours m i\<close> for the external contours of \<open>m == i\<close>.
\<close>

type_synonym contour = "(int \<times> int) list"

record ('img, 'mask, 'rnd) imaging =
  cv_imread :: "string \<Rightarrow> 'img option"
  cv_shape :: "'img \<Rightarrow> nat \<times> nat"
  cv_fill_mask :: "nat \<Rightarrow> nat \<Rightarrow> int list list \<Rightarrow> 'mask result"
  alb_transform :: "'rnd \<Rightarrow> 'img \<Rightarrow> 'mask \<Rightarrow> ('img \<times> 'mask) result"
  np_unique :: "'mask \<Rightarrow> nat list"
  cv_findContours :: "'mask \<Rightarrow> nat \<Rightarrow> contour list"
  cv_contourArea :: "contour \<Rightarrow> real"
  cv_arcLength :: "contour \<Rightarrow> real"
  cv_approxPolyDP :: "contour \<Rightarrow> real \<Rightarrow> contour"
  cv_imwrite :: "string \<Rightarrow> 'img \<Rightarrow> unit result"

definition find_biggest_contour :: "('img, 'mask, 'rnd) imaging \<Rightarrow> contour list \<Rightarrow> contour option"
  where
  "find_biggest_contour cv contours =
     snd (fold (\<lambda>contour (max_area, max_contour).
                  let area = cv_contourArea cv contour
                  in if area > max_area then (area, Some contour) else (max_area, max_contour))
            contours (0, None))"

text \<open>
  \<open>for point in c.squeeze(): polygon.append(point[0]); polygon.append(point[1])\<close> on a
  contour of shape \<open>(n, 1, 2)\<close>. With \<open>n = 1\<close> the squeezed array is one-dimensional, its items
  are scalars and \<open>point[0]\<close> raises before anything is appended.
\<close>

definition squeeze_points :: "contour \<Rightarrow> real list result" where
  "squeeze_points c =
     (if length c = 1 then Inl IndexError
      else Inr (flatten_points (map (\<lambda>(x, y). (real_of_int x, real_of_int y)) c)))"

definition get_new_polygon ::
  "('img, 'mask, 'rnd) imaging \<Rightarrow> 'mask \<Rightarrow> nat \<Rightarrow> nat \<Rightarrow> nat \<Rightarrow> polygon result" where
  "get_new_polygon cv transformed_mask polygon_id width height =
     (let contours = cv_findContours cv transformed_mask polygon_id
      in case find_biggest_contour cv contours of
           None \<Rightarrow> Inl ValueError
         | Some contour \<Rightarrow>
             let epsilon = 0.003 * cv_arcLength cv contour;
                 smoothed_contour = cv_approxPolyDP cv contour epsilon
             in ebind (case squeeze_points smoothed_contour of
                         Inr polygon \<Rightarrow> Inr polygon
                       | Inl e \<Rightarrow> squeeze_points contour) (\<lambda>polygon.
                Inr (map (\<lambda>(i, p). if even i then py_round (p / real width) 5
                                    else py_round (p / real height) 5)
                       (enumerate 0 polygon))))"

text \<open>\<open>np.array(a).reshape(-1, 2)\<close> raises on an odd number of coordinates.\<close>

definition reshape2 :: "real list \<Rightarrow> (real \<times> real) list result" where
  "reshape2 a = (if even (length a) then Inr (points_of a) else Inl ValueError)"

definition iou_polygons :: "'g shapely \<Rightarrow> real list \<Rightarrow> real list \<Rightarrow> real result" where
  "iou_polygons shp a b =
     ebind (reshape2 a) (\<lambda>a_array.
     ebind (reshape2 b) (\<lambda>b_array.
     ebind (shp_Polygon shp a_array) (\<lambda>poly_a.
     ebind (shp_Polygon shp b_array) (\<lambda>poly_b.
     ebind (shp_intersection shp poly_a poly_b) (\<lambda>inter.
       let intersection_area = shp_area shp inter;
           union_area = shp_area shp poly_a + shp_area shp poly_b - intersection_area
       in if union_area = 0 then Inl ZeroDivisionError
          else Inr (intersection_area / union_area))))))"

text \<open>\<open>new_polygon_hw\<close>: the recovered polygon back in pixels.\<close>

definition to_pixels :: "nat \<Rightarrow> nat \<Rightarrow> polygon \<Rightarrow> int list" where
  "to_pixels width height new_polygon =
     map (\<lambda>(i, el). if even i then py_int (el * real width) else py_int (el * real height))
       (enumerate 0 new_polygon)"

text \<open>The loop of \<open>get_new_polygons\<close> over \<open>np.unique(transformed_mask)\<close>, with the list
  \<open>new_polygons\<close> built so far.\<close>

fun get_new_polygons_loop ::
  "('img, 'mask, 'rnd) imaging \<Rightarrow> 'g shapely \<Rightarrow> 'mask \<Rightarrow> int list list \<Rightarrow> nat \<Rightarrow> nat
   \<Rightarrow> nat list \<Rightarrow> polygon list \<Rightarrow> polygon list result" where
  "get_new_polygons_loop cv shp transformed_mask polygons width height [] new_polygons =
     Inr new_polygons"
| "get_new_polygons_loop cv shp transformed_mask polygons width height (polygon_id # ids)
     new_polygons =
     (if polygon_id > 0 then
        ebind (get_new_polygon cv transformed_mask polygon_id width height) (\<lambda>new_polygon.
          let new_polygon_hw = to_pixels width height new_polygon
          in if polygon_id - 1 < length polygons then
               ebind (iou_polygons shp (map real_of_int new_polygon_hw)
                        (map real_of_int (polygons ! (polygon_id - 1)))) (\<lambda>calculated_iou.
                 if calculated_iou < 0.3 then Inl ValueError
                 else get_new_polygons_loop cv shp transformed_mask polygons width height ids
                        (new_polygons @ [new_polygon]))
             else Inl IndexError)
      else get_new_polygons_loop cv shp transformed_mask polygons width height ids new_polygons)"

definition get_new_polygons ::
  "('img, 'mask, 'rnd) imaging \<Rightarrow> 'g shapely \<Rightarrow> 'mask \<Rightarrow> int list list \<Rightarrow> nat \<Rightarrow> nat
   \<Rightarrow> polygon list result" where
  "get_new_polygons cv shp transformed_mask polygons width height =
     get_new_polygons_loop cv shp transformed_mask polygons width height
       (np_unique cv transformed_mask) []"

text \<open>\<open>calculated_iou\<close> for one id, as one pass of the loop computes it, and what the loop
  requires of a polygon it appends.\<close>

definition recovered_iou ::
  "('img, 'mask, 'rnd) imaging \<Rightarrow> 'g shapely \<Rightarrow> 'mask \<Rightarrow> int list list \<Rightarrow> nat \<Rightarrow> nat \<Rightarrow> nat
   \<Rightarrow> real result" where
  "recovered_iou cv shp transformed_mask polygons width height polygon_id =
     ebind (get_new_polygon cv transformed_mask polygon_id width height) (\<lambda>new_polygon.
       if polygon_id - 1 < length polygons
       then iou_polygons shp (map real_of_int (to_pixels width height new_polygon))
              (map real_of_int (polygons ! (polygon_id - 1)))
       else Inl IndexError)"

definition accepted ::
  "('img, 'mask, 'rnd) imaging \<Rightarrow> 'g shapely \<Rightarrow> 'mask \<Rightarrow> int list list \<Rightarrow> nat \<Rightarrow> nat \<Rightarrow> nat
   \<Rightarrow> polygon \<Rightarrow> bool" where
  "accepted cv shp transformed_mask polygons width height polygon_id new_polygon =
     (get_new_polygon cv transformed_mask polygon_id width height = Inr new_polygon
      \<and> (\<exists>v. recovered_iou cv shp transformed_mask polygons width height polygon_id = Inr v
              \<and> 0.3 \<le> v))"

text \<open>The returned dictionary of \<open>generate_augmented_image\<close>.\<close>

record augmented_info =
  info_path :: string
  info_segments :: "polygon list"
  info_id :: string
  info_original_id :: string
  info_image_index :: nat

text \<open>Lines 113 to 117: one normalised polygon to pixels; \<open>polygon_raw[i + 1]\<close> is out of
  range when the number of coordinates is odd.\<close>

fun denormalize :: "nat \<Rightarrow> nat \<Rightarrow> polygon \<Rightarrow> int list result" where
  "denormalize width height [] = Inr []"
| "denormalize width height [x] = Inl IndexError"
| "denormalize width height (x # y # rest) =
     ebind (denormalize width height rest) (\<lambda>polygon.
       Inr (py_int (real width * x) # py_int (real height * y) # polygon))"

text \<open>The body of the \<open>try\<close> block, lines 122 to 158.\<close>

definition transform_and_recover ::
  "('img, 'mask, 'rnd) imaging \<Rightarrow> 'g shapely \<Rightarrow> 'rnd \<Rightarrow> 'img \<Rightarrow> int list list \<Rightarrow> nat \<Rightarrow> nat
   \<Rightarrow> ('img \<times> polygon list) result" where
  "transform_and_recover cv shp rnd img polygons width height =
     ebind (cv_fill_mask cv height width polygons) (\<lambda>mask.
     ebind (alb_transform cv rnd img mask) (\<lambda>(transformed_image, transformed_mask).
     ebind (get_new_polygons cv shp transformed_mask polygons width height) (\<lambda>new_polygons.
       if length new_polygons \<noteq> length polygons then Inl ValueError
       else Inr (transformed_image, new_polygons))))"

text \<open>
  \<open>cv2.imread\<close> returns \<open>None\<close> for a file it cannot read, and \<open>image.shape\<close> then raises
  \<open>AttributeError\<close>. That line, the conversion of the segments and \<open>cv2.imwrite\<close> are outside
  the \<open>try\<close> block; \<open>except Exception: return None\<close> covers only its body.
\<close>

definition generate_augmented_image ::
  "('img, 'mask, 'rnd) imaging \<Rightarrow> 'g shapely \<Rightarrow> 'rnd \<Rightarrow> string \<Rightarrow> string \<Rightarrow> polygon list
   \<Rightarrow> string \<Rightarrow> nat \<Rightarrow> augmented_info option result" where
  "generate_augmented_image cv shp rnd image_id image_path segments target_folder new_index =
     (let new_id = image_id @ ''_aug_'' @ str_nat new_index;
          target_file = target_folder @ ''/'' @ new_id @ ''.jpg''
      in case cv_imread cv image_path of
           None \<Rightarrow> Inl AttributeError
         | Some img \<Rightarrow>
             (case cv_shape cv img of (height, width) \<Rightarrow>
                ebind (emap (denormalize width height) segments) (\<lambda>polygons.
                  case transform_and_recover cv shp rnd img polygons width height of
                    Inl e \<Rightarrow> Inr None
                  | Inr (transformed_image, new_polygons) \<Rightarrow>
                      if length new_polygons = 0 then Inr None
                      else ebind (cv_imwrite cv target_file transformed_image) (\<lambda>u.
                        Inr (Some \<lparr>info_path = target_file, info_segments = new_polygons,
                                   info_id = new_id, info_original_id = image_id,
                                   info_image_index = new_index\<rparr>)))))"

text \<open>
  What the orchestrator takes from its environment: the fresh uuid, \<open>os.makedirs\<close>, the
  random draw of each submitted job (by position in \<open>futures\<close>), and the order in which
  \<open>as_completed\<close> yields the futures. A future holds what its job returned or raised.
\<close>

type_synonym job_result = "augmented_info option result"

record 'rnd runtime =
  rt_uuid4 :: string
  rt_makedirs :: "string \<Rightarrow> unit result"
  rt_draw :: "nat \<Rightarrow> 'rnd"
  rt_as_completed :: "job_result list \<Rightarrow> job_result list"

definition annotation_segments :: "Image \<Rightarrow> polygon list" where
  "annotation_segments img = List.map_filter ann_segmentation (img_annotations img)"

text \<open>\<open>for image in images: for i in range(number)\<close>.\<close>

definition scheduled_jobs :: "Image list \<Rightarrow> int \<Rightarrow> (Image \<times> nat) list" where
  "scheduled_jobs images number =
     concat (map (\<lambda>img. map (\<lambda>i. (img, i)) [0..<nat number]) images)"

definition submit_all ::
  "('img, 'mask, 'rnd) imaging \<Rightarrow> 'g shapely \<Rightarrow> 'rnd runtime \<Rightarrow> Image list \<Rightarrow> int \<Rightarrow> string
   \<Rightarrow> job_result list" where
  "submit_all cv shp rt images number random_temp_folder =
     map (\<lambda>(j, (img, i)).
            generate_augmented_image cv shp (rt_draw rt j) (img_id img) (img_path img)
              (annotation_segments img) random_temp_folder i)
       (enumerate 0 (scheduled_jobs images number))"

text \<open>\<open>{image.id: image for image in images}\<close>: of two images with one id the later stays.\<close>

definition original_images_by_id :: "Image list \<Rightarrow> string \<Rightarrow> Image option" where
  "original_images_by_id images = map_of (rev (map (\<lambda>img. (img_id img, img)) images))"

text \<open>The \<open>Annotation(...)\<close> of lines 219 to 229.\<close>

definition new_annotation :: "nat \<Rightarrow> Annotation \<Rightarrow> polygon \<Rightarrow> Annotation result" where
  "new_annotation image_index annotation new_segmentation =
     ebind (bbox_from_polygon new_segmentation) (\<lambda>new_bbox.
     ebind (calculate_center_from_polygon new_segmentation) (\<lambda>new_center.
     Inr \<lparr>ann_id = ann_id annotation @ ''_'' @ str_nat image_index,
          ann_category_id = ann_category_id annotation,
          ann_center = Some new_center,
          ann_bbox = Some new_bbox,
          ann_segmentation = Some new_segmentation,
          ann_task = ann_task annotation,
          ann_conf = ann_conf annotation,
          ann_category_name = ann_category_name annotation,
          ann_tags = ann_tags annotation @ [''augmented'']\<rparr>))"

text \<open>The \<open>Image(...)\<close> of lines 210 to 234.\<close>

definition new_image :: "Image \<Rightarrow> augmented_info \<Rightarrow> Image result" where
  "new_image original_image new_image_info =
     ebind (emap (\<lambda>(annotation, new_segmentation).
                    new_annotation (info_image_index new_image_info) annotation new_segmentation)
              (zip (img_annotations original_image) (info_segments new_image_info)))
       (\<lambda>new_annotations.
     Inr \<lparr>img_id = info_id new_image_info,
          img_path = info_path new_image_info,
          img_intermediate_ids = img_intermediate_ids original_image @ [img_id original_image],
          img_width = img_width original_image,
          img_height = img_height original_image,
          img_size_kb = img_size_kb original_image,
          img_group = img_group original_image,
          img_annotations = new_annotations\<rparr>)"

text \<open>
  The loop over \<open>as_completed(futures)\<close>. \<open>future.result()\<close> re-raises what the job raised
  (the \<open>try\<close> around it is commented out), which ends \<open>generate_augmentations\<close>.
\<close>

fun collect_results :: "Image list \<Rightarrow> job_result list \<Rightarrow> Image list \<Rightarrow> Image list result" where
  "collect_results images [] new_images = Inr new_images"
| "collect_results images (Inl e # futures) new_images = Inl e"
| "collect_results images (Inr None # futures) new_images =
     collect_results images futures new_images"
| "collect_results images (Inr (Some new_image_info) # futures) new_images =
     (case original_images_by_id images (info_original_id new_image_info) of
        None \<Rightarrow> Inl KeyError
      | Some original_image \<Rightarrow>
          ebind (new_image original_image new_image_info) (\<lambda>created.
            collect_results images futures (new_images @ [created])))"

text \<open>\<open>f"/tmp/tmp_images_augmented/{uuid4()}"\<close>, computed once per call.\<close>

definition random_temp_folder :: "'rnd runtime \<Rightarrow> string" where
  "random_temp_folder rt = ''/tmp/tmp_images_augmented/'' @ rt_uuid4 rt"

definition generate_augmentations ::
  "('img, 'mask, 'rnd) imaging \<Rightarrow> 'g shapely \<Rightarrow> 'rnd runtime \<Rightarrow> Image list \<Rightarrow> int
   \<Rightarrow> Image list result" where
  "generate_augmentations cv shp rt images number =
     ebind (rt_makedirs rt (random_temp_folder rt)) (\<lambda>u.
       collect_results images
         (rt_as_completed rt (submit_all cv shp rt images number (random_temp_folder rt))) [])"

text \<open>
  \<open>generic\<close> builds \<open>Dataset(images=..., categories=..., groups=dataset.groups)\<close>. The keyword
  arguments are evaluated left to right after \<open>generate_augmentations\<close> has returned;
  \<open>dataset.images + augmented_images\<close> and \<open>dataset.categories\<close> succeed, and \<open>dataset.groups\<close>
  reads an attribute that \<open>Dataset\<close> does not declare: it raises \<open>AttributeError\<close>, so no
  \<open>Dataset\<close> is built.
\<close>

definition generic ::
  "('img, 'mask, 'rnd) imaging \<Rightarrow> 'g shapely \<Rightarrow> 'rnd runtime \<Rightarrow> Dataset \<Rightarrow> int \<Rightarrow> Dataset result"
  where
  "generic cv shp rt dataset number =
     ebind (generate_augmentations cv shp rt (ds_images dataset) number) (\<lambda>augmented_images.
       let new_images = ds_images dataset @ augmented_images;
           new_categories = ds_categories dataset
       in Inl AttributeError)"

section \<open>A small backend to run the model on\<close>

text \<open>
  An image is its shape, a mask is the list of its labelled regions, each with its outline.
  The transform is the identity on draw \<open>0\<close>, moves the last object out of the frame on
  draw \<open>1\<close>, and fails on any other draw. A geometry is a closed ring of points; only equal
  rings intersect.
\<close>

fun shoelace :: "(real \<times> real) list \<Rightarrow> real" where
  "shoelace ((x1, y1) # (x2, y2) # ps) = x1 * y2 - x2 * y1 + shoelace ((x2, y2) # ps)"
| "shoelace ps = 0"

definition close_ring :: "(real \<times> real) list \<Rightarrow> (real \<times> real) list" where
  "close_ring ps = (if ps \<noteq> [] \<and> last ps = hd ps then ps else ps @ take 1 ps)"

definition demo_shapely :: "(real \<times> real) list shapely" where
  "demo_shapely =
     \<lparr>shp_Polygon = (\<lambda>ps. if length ps < 3 then Inl ValueError else Inr (close_ring ps)),
      shp_area = (\<lambda>g. \<bar>shoelace g\<bar> / 2),
      shp_intersection = (\<lambda>g h. Inr (if g = h then g else [])),
      shp_union = (\<lambda>g h. Inr (if g = h then g else g @ h)),
      shp_is_MultiPolygon = (\<lambda>g. False),
      shp_convex_hull = (\<lambda>g. g),
      shp_Polygon_of = Inr,
      shp_exterior_coords = Inr\<rparr>"

definition demo_imaging :: "(nat \<times> nat, (nat \<times> contour) list, nat) imaging" where
  "demo_imaging =
     \<lparr>cv_imread = (\<lambda>path. if path = ''missing.jpg'' then None else Some (4, 4)),
      cv_shape = (\<lambda>img. img),
      cv_fill_mask = (\<lambda>height width polygons.
         Inr (map (\<lambda>(i, polygon). (Suc i, points_of polygon)) (enumerate 0 polygons))),
      alb_transform = (\<lambda>rnd img mask.
         if rnd = 0 then Inr (img, mask) else if rnd = 1 then Inr (img, butlast mask)
         else Inl LibraryError),
      np_unique = (\<lambda>mask. 0 # map fst mask),
      cv_findContours = (\<lambda>mask polygon_id. map snd (filter (\<lambda>r. fst r = polygon_id) mask)),
      cv_contourArea = (\<lambda>c.
         \<bar>shoelace (close_ring (map (\<lambda>(x, y). (real_of_int x, real_of_int y)) c))\<bar> / 2),
      cv_arcLength = (\<lambda>c. 0),
      cv_approxPolyDP = (\<lambda>c epsilon. c),
      cv_imwrite = (\<lambda>file img. Inr ())\<rparr>"

definition demo_runtime :: "nat runtime" where
  "demo_runtime =
     \<lparr>rt_uuid4 = ''run'',
      rt_makedirs = (\<lambda>folder. Inr ()),
      rt_draw = (\<lambda>j. 0),
      rt_as_completed = rev\<rparr>"

text \<open>The unit square, normalised, and an annotation that carries it.\<close>

definition unit_square :: polygon where
  "unit_square = [0, 0, 1, 0, 1, 1, 0, 1]"

definition demo_annotation :: "string \<Rightarrow> polygon option \<Rightarrow> Annotation" where
  "demo_annotation name seg =
     \<lparr>ann_id = name, ann_category_id = 0, ann_center = None, ann_bbox = None,
      ann_segmentation = seg, ann_task = ''segment'', ann_conf = - 1,
      ann_category_name = [], ann_tags = []\<rparr>"

definition demo_image :: "string \<Rightarrow> string \<Rightarrow> string list \<Rightarrow> Annotation list \<Rightarrow> Image" where
  "demo_image name path parents anns =
     \<lparr>img_id = name, img_path = path, img_intermediate_ids = parents, img_width = 4,
      img_height = 4, img_size_kb = 1, img_group = ''train'', img_annotations = anns\<rparr>"

text \<open>Masks, pixel polygons, runtimes and image lists to run the model on.\<close>

definition square_mask :: "(nat \<times> contour) list" where
  "square_mask = [(1, [(0, 0), (4, 0), (4, 4), (0, 4)])]"

definition shifted_mask :: "(nat \<times> contour) list" where
  "shifted_mask = [(1, [(0, 0), (2, 0), (2, 2), (0, 2)])]"

definition square_pixels :: "int list" where
  "square_pixels = [0, 0, 4, 0, 4, 4, 0, 4]"

definition half_square :: polygon where
  "half_square = [0, 0, 1 / 2, 0, 1 / 2, 1 / 2, 0, 1 / 2]"

definition failing_runtime :: "nat runtime" where
  "failing_runtime = demo_runtime\<lparr>rt_draw := (\<lambda>j. 2)\<rparr>"

definition one_image :: "Image list" where
  "one_image = [demo_image ''a'' ''a.jpg'' [''r'']
                  [demo_annotation ''n'' None, demo_annotation ''s'' (Some unit_square)]]"

definition unreadable_image :: "Image list" where
  "unreadable_image = [demo_image ''a'' ''missing.jpg'' []
                         [demo_annotation ''s'' (Some unit_square)]]"

definition duplicate_id_images :: "Image list" where
  "duplicate_id_images =
     [demo_image ''a'' ''a.jpg'' []
        [demo_annotation ''s1'' (Some unit_square), demo_annotation ''s2'' (Some half_square)],
      demo_image ''a'' ''b.jpg'' [''z''] [demo_annotation ''n'' None]]"

definition augmented_of_one_image :: Image where
  "augmented_of_one_image =
     \<lparr>img_id = ''a_aug_0'', img_path = ''/tmp/tmp_images_augmented/run/a_aug_0.jpg'',
      img_intermediate_ids = [''r'', ''a''], img_width = 4, img_height = 4, img_size_kb = 1,
      img_group = ''train'',
      img_annotations =
        [\<lparr>ann_id = ''n_0'', ann_category_id = 0, ann_center = Some (1 / 2, 1 / 2),
          ann_bbox = Some (0, 0, 1, 1), ann_segmentation = Some unit_square,
          ann_task = ''segment'', ann_conf = - 1, ann_category_name = [],
          ann_tags = [''augmented'']\<rparr>]\<rparr>"

section \<open>Bounding boxes and polygons\<close>

lemma range_step2_0_8: "range_step2 0 8 = [0, 2, 4, 6]"
  by (simp add: range_step2_def upt_rec)

lemma range_step2_1_8: "range_step2 1 8 = [1, 3, 5, 7]"
  by (simp add: range_step2_def upt_rec)

lemma xs_of_rectangle:
  "map (\<lambda>i. [x1, y1, x2, y1, x2, y2, x1, y2] ! i)
     (range_step2 0 (length [x1, y1, x2, y1, x2, y2, x1, y2])) = [x1, x2, x2, x1]"
proof -
  have "length [x1, y1, x2, y1, x2, y2, x1, y2] = 8" by simp
  then show ?thesis by (simp only: range_step2_0_8) simp
qed

lemma ys_of_rectangle:
  "map (\<lambda>i. [x1, y1, x2, y1, x2, y2, x1, y2] ! i)
     (range_step2 1 (length [x1, y1, x2, y1, x2, y2, x1, y2])) = [y1, y1, y2, y2]"
proof -
  have "length [x1, y1, x2, y1, x2, y2, x1, y2] = 8" by simp
  then show ?thesis by (simp only: range_step2_1_8) simp
qed

text \<open>
  Claim C6. For every bounding box \<open>(x1, y1, x2, y2)\<close> with \<open>x1 < x2\<close> and \<open>y1 < y2\<close>,
  \<open>bbox_from_polygon (polygon_from_bbox b)\<close> returns \<open>b\<close> (and does not raise).
\<close>

theorem bbox_from_polygon_from_bbox:
  assumes "x1 < x2" and "y1 < y2"
  shows "bbox_from_polygon (polygon_from_bbox (x1, y1, x2, y2)) = Inr (x1, y1, x2, y2)"
proof -
  have "bbox_from_polygon [x1, y1, x2, y1, x2, y2, x1, y2] = Inr (x1, y1, x2, y2)"
    unfolding bbox_from_polygon_def xs_of_rectangle ys_of_rectangle
    using assms by (simp add: py_min_def py_max_def ebind_def)
  then show ?thesis by (simp add: polygon_from_bbox_def)
qed

theorem bbox_from_polygon_from_bbox_witness:
  "(1::real) < 3 \<and> (2::real) < 5
   \<and> bbox_from_polygon (polygon_from_bbox (1, 2, 3, 5)) = Inr (1, 2, 3, 5)"
  using bbox_from_polygon_from_bbox [of 1 3 2 5] by simp

section \<open>Merging polygons\<close>

lemma emap_length: "emap f xs = Inr ys \<Longrightarrow> length ys = length xs"
  by (induction xs arbitrary: ys) (auto simp: ebind_def split: sum.splits)

lemma emap_nth:
  "emap f xs = Inr ys \<Longrightarrow> i < length xs \<Longrightarrow> f (xs ! i) = Inr (ys ! i)"
proof (induction xs arbitrary: ys i)
  case Nil
  then show ?case by simp
next
  case (Cons x xs)
  then show ?case
    by (cases i) (auto simp: ebind_def split: sum.splits)
qed

lemma slice2_Cons: "slice2 (y # zs) = y # slice2 (drop 1 zs)"
  by (cases zs) simp_all

lemma points_of_Cons2: "points_of (x # y # zs) = (x, y) # points_of zs"
  by (simp add: points_of_def slice2_Cons)

lemma points_of_flatten_points: "points_of (flatten_points ring) = ring"
proof (induction ring)
  case Nil
  show ?case by (simp add: points_of_def flatten_points_def)
next
  case (Cons p ring)
  obtain x y where p: "p = (x, y)" by (cases p)
  have "flatten_points (p # ring) = x # y # flatten_points ring"
    by (simp add: flatten_points_def p)
  with Cons show ?case by (simp add: points_of_Cons2 p)
qed

text \<open>
  Claim C10. \<open>merge_polygons\<close> needs a non-empty input. On the empty sequence
  \<open>all_polygons[0]\<close> raises \<open>IndexError\<close>. On a non-empty one either a \<open>Polygon\<close>
  constructor raises first, or \<open>all_polygons\<close> has as many elements as the input, so its
  first element exists and the rest is folded with \<open>union\<close>.
\<close>

theorem merge_polygons_empty_or_indexed:
  "merge_polygons shp [] = Inl IndexError
   \<and> (polygons \<noteq> [] \<longrightarrow>
        (case emap (\<lambda>polygon. shp_Polygon shp (points_of polygon)) polygons of
           Inl e \<Rightarrow> merge_polygons shp polygons = Inl e
         | Inr all_polygons \<Rightarrow>
             all_polygons \<noteq> [] \<and> length all_polygons = length polygons
             \<and> merge_polygons shp polygons =
                 ebind (union_all shp (hd all_polygons) (tl all_polygons))
                   (exterior_of_merged shp)))"
proof (intro conjI impI)
  show "merge_polygons shp [] = Inl IndexError"
    by (simp add: merge_polygons_def ebind_def)
next
  assume ne: "polygons \<noteq> []"
  show "case emap (\<lambda>polygon. shp_Polygon shp (points_of polygon)) polygons of
           Inl e \<Rightarrow> merge_polygons shp polygons = Inl e
         | Inr all_polygons \<Rightarrow>
             all_polygons \<noteq> [] \<and> length all_polygons = length polygons
             \<and> merge_polygons shp polygons =
                 ebind (union_all shp (hd all_polygons) (tl all_polygons))
                   (exterior_of_merged shp)"
  proof (cases "emap (\<lambda>polygon. shp_Polygon shp (points_of polygon)) polygons")
    case (Inl e)
    then show ?thesis by (simp add: merge_polygons_def ebind_def)
  next
    case (Inr all_polygons)
    from emap_length [OF Inr] ne have len: "length all_polygons = length polygons"
      and ne': "all_polygons \<noteq> []" by auto
    then obtain first rest where "all_polygons = first # rest" by (cases all_polygons) auto
    with Inr len show ?thesis by (simp add: merge_polygons_def ebind_def)
  qed
qed

theorem merge_polygons_empty_or_indexed_witness:
  "merge_polygons demo_shapely [] = Inl IndexError
   \<and> [unit_square] \<noteq> []
   \<and> merge_polygons demo_shapely [unit_square] = Inr [0, 0, 1, 0, 1, 1, 0, 1, 0, 0]"
proof -
  have ev: "emap (\<lambda>polygon. shp_Polygon demo_shapely (points_of polygon)) [unit_square]
            = Inr [[(0, 0), (1, 0), (1, 1), (0, 1), (0, 0)]]"
    by code_simp
  have fin: "exterior_of_merged demo_shapely [(0, 0), (1, 0), (1, 1), (0, 1), (0, 0)]
             = Inr [0, 0, 1, 0, 1, 1, 0, 1, 0, 0]"
    by code_simp
  show ?thesis
    using merge_polygons_empty_or_indexed [of demo_shapely "[unit_square]"]
    unfolding ev by (simp add: fin ebind_def)
qed

text \<open>
  Claim C7. For a single polygon \<open>p\<close> that shapely accepts, \<open>merge_polygons [p]\<close> returns the
  exterior ring of \<open>p\<close>'s own geometry, flattened: no union and no convex hull is taken. Read
  back as points, the result builds the same geometry as \<open>p\<close>, so it encloses the same area;
  the vertex list may differ (the ring is closed). The two facts used of the library: a
  \<open>Polygon\<close> is not a \<open>MultiPolygon\<close>, and a polygon built from its own exterior ring is
  that polygon again.
\<close>

theorem merge_polygons_single:
  assumes "shp_Polygon shp (points_of p) = Inr g"
    and "\<not> shp_is_MultiPolygon shp g"
    and "shp_exterior_coords shp g = Inr ring"
    and "shp_Polygon shp ring = Inr g"
  shows "merge_polygons shp [p] = Inr (flatten_points ring)
         \<and> shp_Polygon shp (points_of (flatten_points ring)) = Inr g
         \<and> enclosed_area shp (flatten_points ring) = enclosed_area shp p"
  using assms
  by (simp add: merge_polygons_def exterior_of_merged_def enclosed_area_def ebind_def
      points_of_flatten_points)

theorem merge_polygons_single_witness:
  "merge_polygons demo_shapely [unit_square] = Inr [0, 0, 1, 0, 1, 1, 0, 1, 0, 0]
   \<and> enclosed_area demo_shapely [0, 0, 1, 0, 1, 1, 0, 1, 0, 0] = Inr 1
   \<and> enclosed_area demo_shapely unit_square = Inr 1"
proof -
  let ?g = "[(0, 0), (1, 0), (1, 1), (0, 1), (0, 0)] :: (real \<times> real) list"
  have a: "shp_Polygon demo_shapely (points_of unit_square) = Inr ?g" by code_simp
  have b: "\<not> shp_is_MultiPolygon demo_shapely ?g" by code_simp
  have c: "shp_exterior_coords demo_shapely ?g = Inr ?g" by code_simp
  have d: "shp_Polygon demo_shapely ?g = Inr ?g" by code_simp
  have e: "flatten_points ?g = [0, 0, 1, 0, 1, 1, 0, 1, 0, 0]" by code_simp
  have f: "enclosed_area demo_shapely unit_square = Inr 1" by code_simp
  from merge_polygons_single [OF a b c d] show ?thesis by (simp add: e f)
qed

section \<open>Recovering the polygons of a transformed mask\<close>

lemma get_new_polygons_loop_accepts:
  "get_new_polygons_loop cv shp m polygons w h ids acc = Inr nps \<Longrightarrow>
   \<exists>news. nps = acc @ news
     \<and> list_all2 (accepted cv shp m polygons w h) (filter (\<lambda>i. 0 < i) ids) news"
proof (induction ids arbitrary: acc)
  case Nil
  then show ?case by simp
next
  case (Cons pid ids)
  show ?case
  proof (cases "0 < pid")
    case False
    with Cons.prems have "get_new_polygons_loop cv shp m polygons w h ids acc = Inr nps"
      by simp
    from Cons.IH [OF this] False show ?thesis by simp
  next
    case True
    from Cons.prems True obtain np where np: "get_new_polygon cv m pid w h = Inr np"
      by (cases "get_new_polygon cv m pid w h") (simp_all add: ebind_def)
    from Cons.prems True np have idx: "pid - 1 < length polygons"
      by (simp add: ebind_def Let_def split: if_splits)
    let ?iou = "iou_polygons shp (map real_of_int (to_pixels w h np))
                  (map real_of_int (polygons ! (pid - 1)))"
    from Cons.prems True np idx obtain v where v: "?iou = Inr v"
      by (cases ?iou) (simp_all add: ebind_def Let_def)
    from Cons.prems True np idx v have ok: "\<not> v < 0.3"
      and rest: "get_new_polygons_loop cv shp m polygons w h ids (acc @ [np]) = Inr nps"
      by (simp_all add: ebind_def Let_def split: if_splits)
    from Cons.IH [OF rest] obtain news where news: "nps = (acc @ [np]) @ news"
      and all: "list_all2 (accepted cv shp m polygons w h) (filter (\<lambda>i. 0 < i) ids) news"
      by blast
    have "accepted cv shp m polygons w h pid np"
      using np idx v ok by (simp add: accepted_def recovered_iou_def ebind_def)
    with news all True show ?thesis by simp
  qed
qed

lemma get_new_polygons_accepts:
  "get_new_polygons cv shp m polygons w h = Inr nps \<Longrightarrow>
   list_all2 (accepted cv shp m polygons w h) (filter (\<lambda>i. 0 < i) (np_unique cv m)) nps"
  using get_new_polygons_loop_accepts [of cv shp m polygons w h "np_unique cv m" "[]" nps]
  by (simp add: get_new_polygons_def)

text \<open>
  Claim C4. If \<open>get_new_polygons\<close> returns, every positive id of the transformed mask has a
  recovered polygon in the result, in order, and each has an IoU of at least 0.3 with its
  original polygon. Hence if the IoU of some recovered polygon is below 0.3,
  \<open>get_new_polygons\<close> raises.
\<close>

theorem get_new_polygons_iou_threshold:
  "(get_new_polygons cv shp m polygons w h = Inr nps \<longrightarrow>
      list_all2 (accepted cv shp m polygons w h) (filter (\<lambda>i. 0 < i) (np_unique cv m)) nps)
   \<and> (polygon_id \<in> set (np_unique cv m) \<and> 0 < polygon_id
        \<and> recovered_iou cv shp m polygons w h polygon_id = Inr v \<and> v < 0.3 \<longrightarrow>
      (\<exists>e. get_new_polygons cv shp m polygons w h = Inl e))"
proof (intro conjI impI)
  assume "get_new_polygons cv shp m polygons w h = Inr nps"
  then show "list_all2 (accepted cv shp m polygons w h)
               (filter (\<lambda>i. 0 < i) (np_unique cv m)) nps"
    by (rule get_new_polygons_accepts)
next
  assume low: "polygon_id \<in> set (np_unique cv m) \<and> 0 < polygon_id
        \<and> recovered_iou cv shp m polygons w h polygon_id = Inr v \<and> v < 0.3"
  show "\<exists>e. get_new_polygons cv shp m polygons w h = Inl e"
  proof (cases "get_new_polygons cv shp m polygons w h")
    case (Inl e)
    then show ?thesis by blast
  next
    case (Inr out)
    from get_new_polygons_accepts [OF Inr]
    have all: "list_all2 (accepted cv shp m polygons w h)
                 (filter (\<lambda>i. 0 < i) (np_unique cv m)) out" .
    from low have "polygon_id \<in> set (filter (\<lambda>i. 0 < i) (np_unique cv m))" by simp
    then obtain k where k: "k < length (filter (\<lambda>i. 0 < i) (np_unique cv m))"
      and at: "filter (\<lambda>i. 0 < i) (np_unique cv m) ! k = polygon_id"
      unfolding in_set_conv_nth by blast
    from list_all2_nthD [OF all k] at
    have "accepted cv shp m polygons w h polygon_id (out ! k)" by simp
    then obtain v' where "recovered_iou cv shp m polygons w h polygon_id = Inr v'"
      and "0.3 \<le> v'" by (auto simp: accepted_def)
    with low show ?thesis by simp
  qed
qed

theorem get_new_polygons_iou_threshold_witness:
  "get_new_polygons demo_imaging demo_shapely square_mask [square_pixels] 4 4 = Inr [unit_square]
   \<and> list_all2 (accepted demo_imaging demo_shapely square_mask [square_pixels] 4 4)
       (filter (\<lambda>i. 0 < i) (np_unique demo_imaging square_mask)) [unit_square]
   \<and> recovered_iou demo_imaging demo_shapely square_mask [square_pixels] 4 4 1 = Inr 1
   \<and> 1 \<in> set (np_unique demo_imaging shifted_mask)
   \<and> recovered_iou demo_imaging demo_shapely shifted_mask [square_pixels] 4 4 1 = Inr 0
   \<and> (\<exists>e. get_new_polygons demo_imaging demo_shapely shifted_mask [square_pixels] 4 4 = Inl e)"
proof -
  have a: "get_new_polygons demo_imaging demo_shapely square_mask [square_pixels] 4 4
           = Inr [unit_square]" by code_simp
  have b: "recovered_iou demo_imaging demo_shapely square_mask [square_pixels] 4 4 1 = Inr 1"
    by code_simp
  have c: "1 \<in> set (np_unique demo_imaging shifted_mask)" by code_simp
  have d: "recovered_iou demo_imaging demo_shapely shifted_mask [square_pixels] 4 4 1 = Inr 0"
    by code_simp
  from get_new_polygons_iou_threshold
    [of demo_imaging demo_shapely square_mask "[square_pixels]" 4 4 "[unit_square]"] a
  have e: "list_all2 (accepted demo_imaging demo_shapely square_mask [square_pixels] 4 4)
       (filter (\<lambda>i. 0 < i) (np_unique demo_imaging square_mask)) [unit_square]"
    by blast
  from get_new_polygons_iou_threshold
    [of demo_imaging demo_shapely shifted_mask "[square_pixels]" 4 4 _ 1 0] c d
  have f: "\<exists>e. get_new_polygons demo_imaging demo_shapely shifted_mask [square_pixels] 4 4
             = Inl e"
    by simp
  from a b c d e f show ?thesis by blast
qed

section \<open>One replica\<close>

lemma generate_augmented_image_fault:
  assumes "cv_imread cv image_path = Some img"
    and "cv_shape cv img = (height, width)"
    and "emap (denormalize width height) segments = Inr polygons"
    and "transform_and_recover cv shp rnd img polygons width height = Inl e"
  shows "generate_augmented_image cv shp rnd image_id image_path segments target_folder new_index
         = Inr None"
  using assms by (simp add: generate_augmented_image_def ebind_def Let_def)

text \<open>
  Claim C3. A replica whose transformed mask gives a number of recovered polygons different
  from the number of input polygons returns \<open>None\<close>, never a record with the surviving
  polygons.
\<close>

theorem count_mismatch_rejects_replica:
  assumes "cv_imread cv image_path = Some img"
    and "cv_shape cv img = (height, width)"
    and "emap (denormalize width height) segments = Inr polygons"
    and "cv_fill_mask cv height width polygons = Inr label_mask"
    and "alb_transform cv rnd img label_mask = Inr (transformed_image, transformed_mask)"
    and "get_new_polygons cv shp transformed_mask polygons width height = Inr new_polygons"
    and "length new_polygons \<noteq> length segments"
  shows "generate_augmented_image cv shp rnd image_id image_path segments target_folder new_index
         = Inr None"
proof -
  from emap_length [OF assms(3)] assms(7) have "length new_polygons \<noteq> length polygons"
    by simp
  with assms(4-6) have "transform_and_recover cv shp rnd img polygons width height
                        = Inl ValueError"
    by (simp add: transform_and_recover_def ebind_def)
  with assms(1-3) show ?thesis by (rule generate_augmented_image_fault)
qed

theorem count_mismatch_rejects_replica_witness:
  "get_new_polygons demo_imaging demo_shapely [(1, [(0, 0), (4, 0), (4, 4), (0, 4)])]
     [[0, 0, 4, 0, 4, 4, 0, 4], [0, 0, 2, 0, 2, 2, 0, 2]] 4 4 = Inr [unit_square]
   \<and> length [unit_square] \<noteq> length [unit_square, half_square]
   \<and> generate_augmented_image demo_imaging demo_shapely 1 ''a'' ''a.jpg''
       [unit_square, half_square] ''out'' 0 = Inr None"
proof -
  let ?polygons = "[[0, 0, 4, 0, 4, 4, 0, 4], [0, 0, 2, 0, 2, 2, 0, 2]] :: int list list"
  let ?mask = "[(1, [(0, 0), (4, 0), (4, 4), (0, 4)]), (2, [(0, 0), (2, 0), (2, 2), (0, 2)])]
               :: (nat \<times> contour) list"
  let ?tmask = "[(1, [(0, 0), (4, 0), (4, 4), (0, 4)])] :: (nat \<times> contour) list"
  have 1: "cv_imread demo_imaging ''a.jpg'' = Some (4, 4)" by code_simp
  have 2: "cv_shape demo_imaging (4, 4) = (4, 4)" by code_simp
  have 3: "emap (denormalize 4 4) [unit_square, half_square] = Inr ?polygons" by code_simp
  have 4: "cv_fill_mask demo_imaging 4 4 ?polygons = Inr ?mask" by code_simp
  have 5: "alb_transform demo_imaging 1 (4, 4) ?mask = Inr ((4, 4), ?tmask)" by code_simp
  have 6: "get_new_polygons demo_imaging demo_shapely ?tmask ?polygons 4 4 = Inr [unit_square]"
    by code_simp
  have 7: "length [unit_square] \<noteq> length [unit_square, half_square]" by simp
  from count_mismatch_rejects_replica [OF 1 2 3 4 5 6 7, of "''a''" "''out''" 0] 6
  show ?thesis by simp
qed

lemma transform_and_recover_length:
  "transform_and_recover cv shp rnd img polygons width height = Inr (ti, nps) \<Longrightarrow>
   length nps = length polygons"
  by (auto simp: transform_and_recover_def ebind_def split: sum.splits prod.splits if_splits)

lemma generate_augmented_image_Some:
  assumes "generate_augmented_image cv shp rnd image_id image_path segments target_folder
             new_index = Inr (Some info)"
  shows "info_original_id info = image_id \<and> info_image_index info = new_index
         \<and> info_id info = image_id @ ''_aug_'' @ str_nat new_index
         \<and> length (info_segments info) = length segments"
proof -
  from assms obtain img where img: "cv_imread cv image_path = Some img"
    by (cases "cv_imread cv image_path") (simp_all add: generate_augmented_image_def Let_def)
  obtain height width where shape: "cv_shape cv img = (height, width)"
    by (cases "cv_shape cv img")
  from assms img shape obtain polygons
    where polygons: "emap (denormalize width height) segments = Inr polygons"
    by (cases "emap (denormalize width height) segments")
       (simp_all add: generate_augmented_image_def Let_def ebind_def)
  from assms img shape polygons obtain ti nps
    where tr: "transform_and_recover cv shp rnd img polygons width height = Inr (ti, nps)"
    by (cases "transform_and_recover cv shp rnd img polygons width height")
       (auto simp: generate_augmented_image_def Let_def ebind_def)
  from assms img shape polygons tr
  have "info = \<lparr>info_path = target_folder @ ''/'' @ (image_id @ ''_aug_'' @ str_nat new_index)
                              @ ''.jpg'',
                 info_segments = nps,
                 info_id = image_id @ ''_aug_'' @ str_nat new_index,
                 info_original_id = image_id,
                 info_image_index = new_index\<rparr>"
    by (auto simp: generate_augmented_image_def Let_def ebind_def split: if_splits sum.splits)
  with transform_and_recover_length [OF tr] emap_length [OF polygons] show ?thesis by simp
qed

section \<open>The orchestrator\<close>

lemma collect_results_skips_None:
  "collect_results images futures acc
   = collect_results images (filter (\<lambda>f. f \<noteq> Inr None) futures) acc"
  by (induction images futures acc rule: collect_results.induct)
     (auto simp: ebind_def split: option.splits sum.splits)

lemma collect_results_all_None:
  "\<forall>f \<in> set futures. f = Inr None \<Longrightarrow> collect_results images futures acc = Inr acc"
  by (induction images futures acc rule: collect_results.induct) auto

text \<open>
  Claim C1, amended. An exception raised inside the \<open>try\<close> block of
  \<open>generate_augmented_image\<close> (building or applying the transform, filling the mask, a missing
  contour, a low IoU, a polygon count that differs) makes the job return \<open>None\<close>. The
  orchestrator skips a job that returned \<open>None\<close> and handles the other futures as if it were
  absent. If every job returns \<open>None\<close>, \<open>generate_augmentations\<close> returns the empty list,
  given that the output directory could be made.
\<close>

theorem guarded_faults_give_no_result:
  "(cv_imread cv image_path = Some img \<and> cv_shape cv img = (height, width)
      \<and> emap (denormalize width height) segments = Inr polygons
      \<and> transform_and_recover cv shp rnd img polygons width height = Inl e \<longrightarrow>
    generate_augmented_image cv shp rnd image_id image_path segments target_folder new_index
    = Inr None)
   \<and> collect_results images futures new_images
     = collect_results images (filter (\<lambda>f. f \<noteq> Inr None) futures) new_images
   \<and> (rt_makedirs rt (random_temp_folder rt) = Inr ()
      \<and> mset (rt_as_completed rt
                 (submit_all cv shp rt images number
                    (random_temp_folder rt)))
        = mset (submit_all cv shp rt images number
                  (random_temp_folder rt))
      \<and> (\<forall>f \<in> set (submit_all cv shp rt images number
                       (random_temp_folder rt)). f = Inr None) \<longrightarrow>
    generate_augmentations cv shp rt images number = Inr [])"
proof (intro conjI impI)
  assume "cv_imread cv image_path = Some img \<and> cv_shape cv img = (height, width)
      \<and> emap (denormalize width height) segments = Inr polygons
      \<and> transform_and_recover cv shp rnd img polygons width height = Inl e"
  then show "generate_augmented_image cv shp rnd image_id image_path segments target_folder
               new_index = Inr None"
    using generate_augmented_image_fault [of cv image_path img height width segments polygons]
    by blast
next
  show "collect_results images futures new_images
     = collect_results images (filter (\<lambda>f. f \<noteq> Inr None) futures) new_images"
    by (rule collect_results_skips_None)
next
  let ?folder = "random_temp_folder rt"
  let ?fs = "submit_all cv shp rt images number ?folder"
  assume h: "rt_makedirs rt ?folder = Inr () \<and> mset (rt_as_completed rt ?fs) = mset ?fs
      \<and> (\<forall>f \<in> set ?fs. f = Inr None)"
  then have "set (rt_as_completed rt ?fs) = set ?fs" by (metis set_mset_mset)
  with h have "\<forall>f \<in> set (rt_as_completed rt ?fs). f = Inr None" by simp
  from collect_results_all_None [OF this] h
  show "generate_augmentations cv shp rt images number = Inr []"
    by (simp add: generate_augmentations_def ebind_def)
qed

theorem guarded_faults_give_no_result_witness:
  "transform_and_recover demo_imaging demo_shapely 2 (4, 4) [[0, 0, 4, 0, 4, 4, 0, 4]] 4 4
   = Inl LibraryError
   \<and> generate_augmented_image demo_imaging demo_shapely 2 ''a'' ''a.jpg'' [unit_square] ''out'' 0
     = Inr None
   \<and> submit_all demo_imaging demo_shapely failing_runtime one_image 2
       (random_temp_folder failing_runtime) = [Inr None, Inr None]
   \<and> generate_augmentations demo_imaging demo_shapely failing_runtime one_image 2 = Inr []"
proof -
  let ?folder = "random_temp_folder failing_runtime"
  let ?fs = "submit_all demo_imaging demo_shapely failing_runtime one_image 2 ?folder"
  note t = guarded_faults_give_no_result
    [of demo_imaging "''a.jpg''" "(4, 4)" 4 4 "[unit_square]" "[[0, 0, 4, 0, 4, 4, 0, 4]]"
        demo_shapely 2 LibraryError "''a''" "''out''" 0 one_image "[]" "[]"
        failing_runtime 2]
  have 1: "cv_imread demo_imaging ''a.jpg'' = Some (4, 4)" by code_simp
  have 2: "cv_shape demo_imaging (4, 4) = (4, 4)" by code_simp
  have 3: "emap (denormalize 4 4) [unit_square] = Inr [[0, 0, 4, 0, 4, 4, 0, 4]]" by code_simp
  have 4: "transform_and_recover demo_imaging demo_shapely 2 (4, 4) [[0, 0, 4, 0, 4, 4, 0, 4]] 4 4
           = Inl LibraryError" by code_simp
  have 5: "rt_makedirs failing_runtime ?folder = Inr ()" by code_simp
  have 6: "?fs = [Inr None, Inr None]" by code_simp
  have 7: "rt_as_completed failing_runtime [Inr None, Inr None] = [Inr None, Inr None]"
    by code_simp
  from t 1 2 3 4 have a: "generate_augmented_image demo_imaging demo_shapely 2 ''a'' ''a.jpg''
      [unit_square] ''out'' 0 = Inr None" by blast
  have "mset (rt_as_completed failing_runtime ?fs) = mset ?fs" unfolding 6 7 by simp
  moreover have "\<forall>f \<in> set ?fs. f = Inr None" unfolding 6 by simp
  ultimately have b: "generate_augmentations demo_imaging demo_shapely failing_runtime one_image 2
                      = Inr []"
    using t 5 by blast
  from 4 a 6 b show ?thesis by blast
qed

text \<open>
  Claim C1 as stated fails on an image file that cannot be read: \<open>image.shape\<close> raises before
  the \<open>try\<close> block is entered, the job raises, and so does \<open>generate_augmentations\<close>.
\<close>

theorem unreadable_image_aborts_counterexample:
  "generate_augmented_image demo_imaging demo_shapely 0 ''a'' ''missing.jpg'' [unit_square]
     ''out'' 0 = Inl AttributeError
   \<and> generate_augmentations demo_imaging demo_shapely demo_runtime unreadable_image 1
     = Inl AttributeError"
  by code_simp

lemma submit_all_job:
  assumes "f \<in> set (submit_all cv shp rt images number folder)"
  shows "\<exists>scheduled k j. scheduled \<in> set images \<and> k < nat number
           \<and> f = generate_augmented_image cv shp (rt_draw rt j) (img_id scheduled)
                   (img_path scheduled) (annotation_segments scheduled) folder k"
proof -
  from assms obtain j scheduled k
    where "(j, (scheduled, k)) \<in> set (enumerate 0 (scheduled_jobs images number))"
      and f: "f = generate_augmented_image cv shp (rt_draw rt j) (img_id scheduled)
                   (img_path scheduled) (annotation_segments scheduled) folder k"
    by (auto simp: submit_all_def)
  then have "j < length (scheduled_jobs images number)
             \<and> scheduled_jobs images number ! j = (scheduled, k)"
    by (simp add: in_set_enumerate_eq)
  then have "(scheduled, k) \<in> set (scheduled_jobs images number)"
    by (metis nth_mem)
  then have "scheduled \<in> set images \<and> k < nat number"
    by (auto simp: scheduled_jobs_def)
  with f show ?thesis by blast
qed

lemma original_images_by_id_Some:
  "original_images_by_id images k = Some original \<Longrightarrow>
   original \<in> set images \<and> img_id original = k"
  by (auto simp: original_images_by_id_def dest!: map_of_SomeD)

lemma distinct_ids_same_image:
  "distinct (map img_id images) \<Longrightarrow> a \<in> set images \<Longrightarrow> b \<in> set images \<Longrightarrow>
   img_id a = img_id b \<Longrightarrow> a = b"
  by (meson distinct_map inj_onD)

lemma new_annotation_fields:
  "new_annotation k a seg = Inr a' \<Longrightarrow>
   ann_id a' = ann_id a @ ''_'' @ str_nat k \<and> ann_tags a' = ann_tags a @ [''augmented'']
   \<and> ann_segmentation a' = Some seg \<and> ann_category_id a' = ann_category_id a"
  by (auto simp: new_annotation_def ebind_def split: sum.splits)

lemma new_image_fields:
  assumes "new_image original info = Inr created"
  shows "img_id created = info_id info
     \<and> img_intermediate_ids created = img_intermediate_ids original @ [img_id original]
     \<and> length (img_annotations created)
         = min (length (img_annotations original)) (length (info_segments info))
     \<and> (\<forall>i < length (img_annotations created).
           new_annotation (info_image_index info) (img_annotations original ! i)
             (info_segments info ! i) = Inr (img_annotations created ! i))"
proof -
  let ?f = "\<lambda>(annotation, new_segmentation).
              new_annotation (info_image_index info) annotation new_segmentation"
  let ?pairs = "zip (img_annotations original) (info_segments info)"
  from assms obtain anns where anns: "emap ?f ?pairs = Inr anns"
    by (cases "emap ?f ?pairs") (simp_all add: new_image_def ebind_def)
  with assms have c: "img_id created = info_id info"
      "img_intermediate_ids created = img_intermediate_ids original @ [img_id original]"
      "img_annotations created = anns"
    by (auto simp: new_image_def ebind_def)
  from emap_length [OF anns] have len: "length anns = length ?pairs" .
  have "\<forall>i < length anns. new_annotation (info_image_index info) (img_annotations original ! i)
             (info_segments info ! i) = Inr (anns ! i)"
  proof (intro allI impI)
    fix i assume "i < length anns"
    with len have i: "i < length ?pairs" by simp
    from emap_nth [OF anns i] i show "new_annotation (info_image_index info)
      (img_annotations original ! i) (info_segments info ! i) = Inr (anns ! i)" by simp
  qed
  with c len show ?thesis by simp
qed

lemma length_annotation_segments:
  "length (annotation_segments original)
   = length (filter (\<lambda>a. ann_segmentation a \<noteq> None) (img_annotations original))"
  by (simp add: annotation_segments_def List.map_filter_def)

lemma collect_results_created:
  "collect_results images futures acc = Inr out \<Longrightarrow>
   \<exists>created. out = acc @ created
     \<and> (\<forall>ni \<in> set created. \<exists>info original.
           Inr (Some info) \<in> set futures
           \<and> original_images_by_id images (info_original_id info) = Some original
           \<and> new_image original info = Inr ni)"
proof (induction images futures acc rule: collect_results.induct)
  case (1 images new_images)
  then show ?case by simp
next
  case (2 images e futures new_images)
  then show ?case by simp
next
  case (3 images futures new_images)
  then show ?case by auto
next
  case (4 images info futures new_images)
  from "4.prems" obtain original
    where o: "original_images_by_id images (info_original_id info) = Some original"
    by (cases "original_images_by_id images (info_original_id info)") simp_all
  from "4.prems" o obtain c where c: "new_image original info = Inr c"
    by (cases "new_image original info") (simp_all add: ebind_def)
  from "4.prems" o c have "collect_results images futures (new_images @ [c]) = Inr out"
    by (simp add: ebind_def)
  from "4.IH" [OF o this] obtain created where out: "out = (new_images @ [c]) @ created"
    and rest: "\<forall>ni \<in> set created. \<exists>info original.
           Inr (Some info) \<in> set futures
           \<and> original_images_by_id images (info_original_id info) = Some original
           \<and> new_image original info = Inr ni"
    by blast
  have "out = new_images @ (c # created)" using out by simp
  moreover have "\<forall>ni \<in> set (c # created). \<exists>info' original.
           Inr (Some info') \<in> set (Inr (Some info) # futures)
           \<and> original_images_by_id images (info_original_id info') = Some original
           \<and> new_image original info' = Inr ni"
  proof
    fix ni assume "ni \<in> set (c # created)"
    then consider "ni = c" | "ni \<in> set created" by auto
    then show "\<exists>info' original.
           Inr (Some info') \<in> set (Inr (Some info) # futures)
           \<and> original_images_by_id images (info_original_id info') = Some original
           \<and> new_image original info' = Inr ni"
    proof cases
      case 1
      with o c show ?thesis by (metis list.set_intros(1))
    next
      case 2
      with rest show ?thesis by (metis list.set_intros(2))
    qed
  qed
  ultimately show ?case by blast
qed

lemma generate_augmentations_origin:
  assumes perm: "mset (rt_as_completed rt (submit_all cv shp rt images number
                         (random_temp_folder rt)))
                 = mset (submit_all cv shp rt images number (random_temp_folder rt))"
    and run: "generate_augmentations cv shp rt images number = Inr new_images"
    and ni: "ni \<in> set new_images"
  shows "\<exists>scheduled original k j info.
           scheduled \<in> set images \<and> original \<in> set images \<and> k < nat number
           \<and> img_id original = img_id scheduled
           \<and> generate_augmented_image cv shp (rt_draw rt j) (img_id scheduled)
                (img_path scheduled) (annotation_segments scheduled) (random_temp_folder rt) k
              = Inr (Some info)
           \<and> new_image original info = Inr ni"
proof -
  let ?fs = "submit_all cv shp rt images number (random_temp_folder rt)"
  from run have "collect_results images (rt_as_completed rt ?fs) [] = Inr new_images"
    by (cases "rt_makedirs rt (random_temp_folder rt)")
       (simp_all add: generate_augmentations_def ebind_def)
  from collect_results_created [OF this] ni obtain info original
    where f: "Inr (Some info) \<in> set (rt_as_completed rt ?fs)"
      and o: "original_images_by_id images (info_original_id info) = Some original"
      and c: "new_image original info = Inr ni"
    by auto
  from perm have "set (rt_as_completed rt ?fs) = set ?fs" by (metis set_mset_mset)
  with f have "Inr (Some info) \<in> set ?fs" by simp
  from submit_all_job [OF this] obtain scheduled k j
    where s: "scheduled \<in> set images" and k: "k < nat number"
      and job: "generate_augmented_image cv shp (rt_draw rt j) (img_id scheduled)
                  (img_path scheduled) (annotation_segments scheduled) (random_temp_folder rt) k
                = Inr (Some info)"
    by metis
  from generate_augmented_image_Some [OF job] have "info_original_id info = img_id scheduled"
    by simp
  with original_images_by_id_Some [OF o]
  have "original \<in> set images" and "img_id original = img_id scheduled" by simp_all
  with s k job c show ?thesis by blast
qed

text \<open>The run on one image with two annotations, one replica, identity transform.\<close>

lemma one_image_run:
  "generate_augmentations demo_imaging demo_shapely demo_runtime one_image 1
   = Inr [augmented_of_one_image]"
  by code_simp

lemma demo_runtime_as_completed: "mset (rt_as_completed demo_runtime fs) = mset fs"
  by (simp add: demo_runtime_def)

text \<open>
  Claim C5, amended. When the input images have pairwise distinct ids, every image
  \<open>generate_augmentations\<close> returns comes from the job of an original image \<open>o\<close> at a replica
  index \<open>k\<close> below \<open>number\<close>: its id is \<open>o\<close>'s id followed by \<open>_aug_k\<close>, its \<open>intermediate_ids\<close>
  are \<open>o\<close>'s followed by \<open>o\<close>'s id, and its \<open>i\<close>-th annotation has the id of \<open>o\<close>'s \<open>i\<close>-th
  annotation followed by \<open>_k\<close> and that annotation's tags followed by \<open>augmented\<close>. Here
  \<open>as_completed\<close> yields each future once.
\<close>

theorem augmented_image_lineage:
  assumes "mset (rt_as_completed rt (submit_all cv shp rt images number (random_temp_folder rt)))
           = mset (submit_all cv shp rt images number (random_temp_folder rt))"
    and "distinct (map img_id images)"
    and "generate_augmentations cv shp rt images number = Inr new_images"
    and "ni \<in> set new_images"
  shows "\<exists>original k j info. original \<in> set images \<and> k < nat number
           \<and> generate_augmented_image cv shp (rt_draw rt j) (img_id original)
                (img_path original) (annotation_segments original) (random_temp_folder rt) k
              = Inr (Some info)
           \<and> img_id ni = img_id original @ ''_aug_'' @ str_nat k
           \<and> img_path ni = info_path info
           \<and> img_intermediate_ids ni = img_intermediate_ids original @ [img_id original]
           \<and> length (img_annotations ni) \<le> length (img_annotations original)
           \<and> (\<forall>i < length (img_annotations ni).
                 ann_id (img_annotations ni ! i)
                   = ann_id (img_annotations original ! i) @ ''_'' @ str_nat k
                 \<and> ann_tags (img_annotations ni ! i)
                   = ann_tags (img_annotations original ! i) @ [''augmented''])"
proof -
  from generate_augmentations_origin [OF assms(1,3,4)] obtain scheduled original k j info
    where s: "scheduled \<in> set images" and o: "original \<in> set images" and k: "k < nat number"
      and same: "img_id original = img_id scheduled"
      and job: "generate_augmented_image cv shp (rt_draw rt j) (img_id scheduled)
                  (img_path scheduled) (annotation_segments scheduled) (random_temp_folder rt) k
                = Inr (Some info)"
      and c: "new_image original info = Inr ni"
    by blast
  from distinct_ids_same_image [OF assms(2) o s same] have eq: "scheduled = original" by simp
  from generate_augmented_image_Some [OF job] same
  have idx: "info_image_index info = k"
    and nid: "info_id info = img_id original @ ''_aug_'' @ str_nat k" by simp_all
  from c have pth: "img_path ni = info_path info"
    by (auto simp: new_image_def ebind_def split: sum.splits)
  from new_image_fields [OF c] idx nid
  have 1: "img_id ni = img_id original @ ''_aug_'' @ str_nat k"
    and 2: "img_intermediate_ids ni = img_intermediate_ids original @ [img_id original]"
    and 3: "length (img_annotations ni) \<le> length (img_annotations original)"
    and 4: "\<forall>i < length (img_annotations ni).
           new_annotation k (img_annotations original ! i)
             (info_segments info ! i) = Inr (img_annotations ni ! i)"
    by simp_all
  from 4 have 5: "\<forall>i < length (img_annotations ni).
                 ann_id (img_annotations ni ! i)
                   = ann_id (img_annotations original ! i) @ ''_'' @ str_nat k
                 \<and> ann_tags (img_annotations ni ! i)
                   = ann_tags (img_annotations original ! i) @ [''augmented'']"
    using new_annotation_fields by blast
  from job eq have "generate_augmented_image cv shp (rt_draw rt j) (img_id original)
                (img_path original) (annotation_segments original) (random_temp_folder rt) k
              = Inr (Some info)" by simp
  with o k 1 pth 2 3 5 show ?thesis by blast
qed

theorem augmented_image_lineage_witness:
  "distinct (map img_id one_image)
   \<and> generate_augmentations demo_imaging demo_shapely demo_runtime one_image 1
     = Inr [augmented_of_one_image]
   \<and> (\<exists>original k j info. original \<in> set one_image \<and> k < nat 1
           \<and> generate_augmented_image demo_imaging demo_shapely (rt_draw demo_runtime j)
                (img_id original) (img_path original) (annotation_segments original)
                (random_temp_folder demo_runtime) k
              = Inr (Some info)
           \<and> img_id augmented_of_one_image = img_id original @ ''_aug_'' @ str_nat k
           \<and> img_path augmented_of_one_image = info_path info
           \<and> img_intermediate_ids augmented_of_one_image
             = img_intermediate_ids original @ [img_id original]
           \<and> length (img_annotations augmented_of_one_image)
             \<le> length (img_annotations original)
           \<and> (\<forall>i < length (img_annotations augmented_of_one_image).
                 ann_id (img_annotations augmented_of_one_image ! i)
                   = ann_id (img_annotations original ! i) @ ''_'' @ str_nat k
                 \<and> ann_tags (img_annotations augmented_of_one_image ! i)
                   = ann_tags (img_annotations original ! i) @ [''augmented'']))"
proof -
  have d: "distinct (map img_id one_image)" by (simp add: one_image_def)
  have m: "augmented_of_one_image \<in> set [augmented_of_one_image]" by simp
  from augmented_image_lineage [OF demo_runtime_as_completed d one_image_run m] d one_image_run
  show ?thesis by blast
qed

text \<open>
  Claim C5 as stated fails when two input images share an id: the dictionary
  \<open>original_images_by_id\<close> keeps the later one. Below, only the job of the first image
  returns a record, and the new image gets the lineage and the annotation ids of the second.
\<close>

theorem duplicate_ids_lineage_counterexample:
  "map_sum id (map (\<lambda>x. (img_id x, img_intermediate_ids x, map ann_id (img_annotations x))))
     (generate_augmentations demo_imaging demo_shapely demo_runtime duplicate_id_images 1)
   = Inr [(''a_aug_0'', [''z'', ''a''], [''n_0''])]
   \<and> map (\<lambda>f. f = Inr None)
       (submit_all demo_imaging demo_shapely demo_runtime duplicate_id_images 1
          (random_temp_folder demo_runtime)) = [False, True]
   \<and> map (\<lambda>i. (img_id i, img_intermediate_ids i @ [img_id i], map ann_id (img_annotations i)))
       duplicate_id_images = [(''a'', [''a''], [''s1'', ''s2'']), (''a'', [''z'', ''a''], [''n''])]"
  by code_simp

text \<open>
  Claim C8, amended. When the input images have pairwise distinct ids, the annotations of
  every returned image are the original image's annotations paired by position with the
  recovered segments: there are as many as the original has annotations with a
  segmentation, and the \<open>i\<close>-th carries the \<open>i\<close>-th recovered segment with the id and category of
  the \<open>i\<close>-th original annotation overall. That annotation need not be the one the segment
  came from: in the run below the original has an annotation \<open>n\<close> without segmentation before
  an annotation \<open>s\<close> with one, and the segment recovered for \<open>s\<close> is stored under \<open>n_0\<close>.
\<close>

theorem annotations_paired_by_position:
  assumes "mset (rt_as_completed rt (submit_all cv shp rt images number (random_temp_folder rt)))
           = mset (submit_all cv shp rt images number (random_temp_folder rt))"
    and "distinct (map img_id images)"
    and "generate_augmentations cv shp rt images number = Inr new_images"
    and "ni \<in> set new_images"
  shows "(\<exists>original k j info. original \<in> set images \<and> k < nat number
           \<and> generate_augmented_image cv shp (rt_draw rt j) (img_id original)
                (img_path original) (annotation_segments original) (random_temp_folder rt) k
              = Inr (Some info)
           \<and> length (img_annotations ni)
             = length (filter (\<lambda>a. ann_segmentation a \<noteq> None) (img_annotations original))
           \<and> length (info_segments info) = length (img_annotations ni)
           \<and> (\<forall>i < length (img_annotations ni).
                 ann_segmentation (img_annotations ni ! i) = Some (info_segments info ! i)
                 \<and> ann_id (img_annotations ni ! i)
                   = ann_id (img_annotations original ! i) @ ''_'' @ str_nat k
                 \<and> ann_category_id (img_annotations ni ! i)
                   = ann_category_id (img_annotations original ! i)))
         \<and> generate_augmentations demo_imaging demo_shapely demo_runtime one_image 1
           = Inr [augmented_of_one_image]
         \<and> map ann_segmentation (img_annotations (hd one_image)) = [None, Some unit_square]
         \<and> map ann_id (img_annotations (hd one_image)) = [''n'', ''s'']
         \<and> map ann_segmentation (img_annotations augmented_of_one_image) = [Some unit_square]
         \<and> map ann_id (img_annotations augmented_of_one_image) = [''n_0'']"
proof -
  from generate_augmentations_origin [OF assms(1,3,4)] obtain scheduled original k j info
    where s: "scheduled \<in> set images" and o: "original \<in> set images" and k: "k < nat number"
      and same: "img_id original = img_id scheduled"
      and job: "generate_augmented_image cv shp (rt_draw rt j) (img_id scheduled)
                  (img_path scheduled) (annotation_segments scheduled) (random_temp_folder rt) k
                = Inr (Some info)"
      and c: "new_image original info = Inr ni"
    by blast
  from distinct_ids_same_image [OF assms(2) o s same] have eq: "scheduled = original" by simp
  with job have job': "generate_augmented_image cv shp (rt_draw rt j) (img_id original)
                (img_path original) (annotation_segments original) (random_temp_folder rt) k
              = Inr (Some info)" by simp
  from generate_augmented_image_Some [OF job']
  have idx: "info_image_index info = k"
    and segs: "length (info_segments info) = length (annotation_segments original)"
    by simp_all
  have le: "length (filter (\<lambda>a. ann_segmentation a \<noteq> None) (img_annotations original))
            \<le> length (img_annotations original)" by (rule length_filter_le)
  from new_image_fields [OF c] idx segs le
  have len: "length (img_annotations ni)
             = length (filter (\<lambda>a. ann_segmentation a \<noteq> None) (img_annotations original))"
    and each: "\<forall>i < length (img_annotations ni).
           new_annotation k (img_annotations original ! i)
             (info_segments info ! i) = Inr (img_annotations ni ! i)"
    by (simp_all add: length_annotation_segments)
  from len segs have len2: "length (info_segments info) = length (img_annotations ni)"
    by (simp add: length_annotation_segments)
  from each have fields: "\<forall>i < length (img_annotations ni).
                 ann_segmentation (img_annotations ni ! i) = Some (info_segments info ! i)
                 \<and> ann_id (img_annotations ni ! i)
                   = ann_id (img_annotations original ! i) @ ''_'' @ str_nat k
                 \<and> ann_category_id (img_annotations ni ! i)
                   = ann_category_id (img_annotations original ! i)"
    using new_annotation_fields by blast
  have ex1: "map ann_segmentation (img_annotations (hd one_image)) = [None, Some unit_square]"
    by code_simp
  have ex2: "map ann_id (img_annotations (hd one_image)) = [''n'', ''s'']" by code_simp
  have ex3: "map ann_segmentation (img_annotations augmented_of_one_image) = [Some unit_square]"
    by code_simp
  have ex4: "map ann_id (img_annotations augmented_of_one_image) = [''n_0'']" by code_simp
  from o k job' len len2 fields have "\<exists>original k j info. original \<in> set images \<and> k < nat number
           \<and> generate_augmented_image cv shp (rt_draw rt j) (img_id original)
                (img_path original) (annotation_segments original) (random_temp_folder rt) k
              = Inr (Some info)
           \<and> length (img_annotations ni)
             = length (filter (\<lambda>a. ann_segmentation a \<noteq> None) (img_annotations original))
           \<and> length (info_segments info) = length (img_annotations ni)
           \<and> (\<forall>i < length (img_annotations ni).
                 ann_segmentation (img_annotations ni ! i) = Some (info_segments info ! i)
                 \<and> ann_id (img_annotations ni ! i)
                   = ann_id (img_annotations original ! i) @ ''_'' @ str_nat k
                 \<and> ann_category_id (img_annotations ni ! i)
                   = ann_category_id (img_annotations original ! i))"
    by blast
  with one_image_run ex1 ex2 ex3 ex4 show ?thesis by blast
qed

theorem annotations_paired_by_position_witness:
  "distinct (map img_id one_image)
   \<and> augmented_of_one_image \<in> set [augmented_of_one_image]
   \<and> (\<exists>original k j info. original \<in> set one_image \<and> k < nat 1
           \<and> generate_augmented_image demo_imaging demo_shapely (rt_draw demo_runtime j)
                (img_id original) (img_path original) (annotation_segments original)
                (random_temp_folder demo_runtime) k
              = Inr (Some info)
           \<and> length (img_annotations augmented_of_one_image)
             = length (filter (\<lambda>a. ann_segmentation a \<noteq> None) (img_annotations original))
           \<and> length (info_segments info) = length (img_annotations augmented_of_one_image))
   \<and> length (img_annotations augmented_of_one_image) = 1"
proof -
  have d: "distinct (map img_id one_image)" by (simp add: one_image_def)
  have m: "augmented_of_one_image \<in> set [augmented_of_one_image]" by simp
  have l: "length (img_annotations augmented_of_one_image) = 1" by code_simp
  from annotations_paired_by_position [OF demo_runtime_as_completed d one_image_run m] d m l
  show ?thesis by blast
qed

text \<open>
  Claim C8 as stated fails when two input images share an id: the segments recovered for
  the first image (two) are zipped with the annotations of the second (one, without
  segmentation), which gives one annotation.
\<close>

theorem duplicate_ids_pairing_counterexample:
  "map_sum id (map (\<lambda>x. length (img_annotations x)))
     (generate_augmentations demo_imaging demo_shapely demo_runtime duplicate_id_images 1)
   = Inr [1]
   \<and> map (\<lambda>i. length (filter (\<lambda>a. ann_segmentation a \<noteq> None) (img_annotations i)))
       duplicate_id_images = [2, 0]"
  by code_simp

section \<open>The dataset entry point\<close>

text \<open>
  Claim C2. \<open>generic\<close> is to return the dataset with the augmented images appended and
  \<open>categories\<close> and \<open>groups\<close> unchanged. On the dataset with no image and no category it
  raises \<open>AttributeError\<close> instead, at \<open>dataset.groups\<close>.
\<close>

theorem generic_raises_on_empty_dataset:
  "generic demo_imaging demo_shapely demo_runtime \<lparr>ds_images = [], ds_categories = []\<rparr> 3
   = Inl AttributeError"
  by code_simp

end
